theory Spec2Isabelle
  imports
    Main
    "HOL-Library.Char_ord"
    "HOL-Library.List_Lexorder"
    "HOL-Library.Sublist"
    "HOL-Library.AList"
begin

section \<open>Strings as the program sees them\<close>

text \<open>
  simtagger.py works on Python \<open>str\<close> values: sequences of code points. They are
  modelled as \<open>string\<close> (a list of \<open>char\<close>), one \<open>char\<close> per code point,
  which covers the code points below 256. The character classes below are the ones
  Python uses on that range: \<open>str.strip()\<close> and the regular expression class
  \<open>\s\<close> share one notion of white space; \<open>\d\<close> is \<open>0-9\<close>; \<open>\b\<close> separates
  word characters (alphanumerics and the underscore) from the rest.
\<close>

definition is_space :: "char \<Rightarrow> bool" where
  "is_space c \<longleftrightarrow>
     (let n = (of_char c :: nat)
      in (9 \<le> n \<and> n \<le> 13) \<or> (28 \<le> n \<and> n \<le> 32) \<or> n = 133 \<or> n = 160)"

definition is_digit :: "char \<Rightarrow> bool" where
  "is_digit c \<longleftrightarrow> CHR ''0'' \<le> c \<and> c \<le> CHR ''9''"

definition is_letter :: "char \<Rightarrow> bool" where
  \<comment> \<open>the class \<open>[A-Za-z]\<close>\<close>
  "is_letter c \<longleftrightarrow> (CHR ''A'' \<le> c \<and> c \<le> CHR ''Z'') \<or> (CHR ''a'' \<le> c \<and> c \<le> CHR ''z'')"

definition is_word :: "char \<Rightarrow> bool" where
  \<comment> \<open>the class \<open>\w\<close> of a \<open>str\<close> pattern, on the code points below 256\<close>
  "is_word c \<longleftrightarrow>
     (let n = (of_char c :: nat)
      in is_letter c \<or> is_digit c \<or> c = CHR ''_''
         \<or> n = 170 \<or> n = 178 \<or> n = 179 \<or> n = 181 \<or> n = 185 \<or> n = 186
         \<or> n = 188 \<or> n = 189 \<or> n = 190
         \<or> (192 \<le> n \<and> n \<le> 214) \<or> (216 \<le> n \<and> n \<le> 246) \<or> 248 \<le> n)"

definition upper_char :: "char \<Rightarrow> char" where
  "upper_char c =
     (if CHR ''a'' \<le> c \<and> c \<le> CHR ''z'' then char_of (of_char c - (32::nat)) else c)"

definition py_upper :: "string \<Rightarrow> string" where
  \<comment> \<open>\<open>str.upper()\<close>; the program applies it to tokens of \<open>[A-Za-z]\<close> and to drive names\<close>
  "py_upper s = map upper_char s"

definition py_strip :: "string \<Rightarrow> string" where
  \<comment> \<open>\<open>str.strip()\<close>: white space removed at both ends\<close>
  "py_strip s = rev (dropWhile is_space (rev (dropWhile is_space s)))"

definition py_lstrip :: "string \<Rightarrow> string \<Rightarrow> string" where
  \<comment> \<open>\<open>s.lstrip(chars)\<close>: leading characters that occur in \<open>chars\<close> removed\<close>
  "py_lstrip chars s = dropWhile (\<lambda>c. c \<in> set chars) s"

definition py_replace :: "char \<Rightarrow> char \<Rightarrow> string \<Rightarrow> string" where
  \<comment> \<open>\<open>s.replace(a, b)\<close> for one-character \<open>a\<close> and \<open>b\<close>\<close>
  "py_replace a b s = map (\<lambda>c. if c = a then b else c) s"

fun py_split :: "char \<Rightarrow> string \<Rightarrow> string list" where
  \<comment> \<open>\<open>s.split(sep)\<close> for a one-character separator: empty pieces are kept\<close>
  "py_split sep [] = [[]]"
| "py_split sep (c # cs) =
     (if c = sep then [] # py_split sep cs
      else (case py_split sep cs of
              [] \<Rightarrow> [[c]]
            | w # ws \<Rightarrow> (c # w) # ws))"

fun py_join :: "string \<Rightarrow> string list \<Rightarrow> string" where
  "py_join sep [] = []"
| "py_join sep [x] = x"
| "py_join sep (x # y # ys) = x @ sep @ py_join sep (y # ys)"

subsection \<open>Integers and their decimal text\<close>

text \<open>
  \<open>int(p)\<close> on a string: white space is trimmed at both ends, one sign may come first,
  and the rest is a run of decimal digits in which single underscores may stand between
  two digits. Anything else raises \<open>ValueError\<close>, the value \<open>None\<close> here. The
  white space \<open>int\<close> trims is narrower than that of \<open>str.strip()\<close>: the
  separator controls \<open>0x1C\<close> to \<open>0x1F\<close> are not part of it. Python's
  integers are unbounded (\<open>int\<close>); the interpreter's configurable limit on the number
  of digits of one literal is not modelled.
\<close>

definition is_int_space :: "char \<Rightarrow> bool" where
  "is_int_space c \<longleftrightarrow>
     (let n = (of_char c :: nat)
      in (9 \<le> n \<and> n \<le> 13) \<or> n = 32 \<or> n = 133 \<or> n = 160)"

definition int_strip :: "string \<Rightarrow> string" where
  "int_strip s = rev (dropWhile is_int_space (rev (dropWhile is_int_space s)))"

definition digit_val :: "char \<Rightarrow> nat" where
  "digit_val c = of_char c - 48"

fun dec_digits :: "bool \<Rightarrow> nat \<Rightarrow> string \<Rightarrow> nat option" where
  \<comment> \<open>the flag says that the previous character was a digit\<close>
  "dec_digits d acc [] = (if d then Some acc else None)"
| "dec_digits d acc (c # cs) =
     (if is_digit c then dec_digits True (acc * 10 + digit_val c) cs
      else if c = CHR ''_'' \<and> d then dec_digits False acc cs
      else None)"

definition py_int :: "string \<Rightarrow> int option" where
  "py_int p =
     (case int_strip p of
        [] \<Rightarrow> None
      | c # r \<Rightarrow>
          if c = CHR ''-'' then map_option (\<lambda>n. - int n) (dec_digits False 0 r)
          else if c = CHR ''+'' then map_option int (dec_digits False 0 r)
          else map_option int (dec_digits False 0 (c # r)))"

definition digit_char :: "nat \<Rightarrow> char" where
  "digit_char n = char_of (48 + n)"

function str_nat :: "nat \<Rightarrow> string" where
  "str_nat n = (if n < 10 then [digit_char n] else str_nat (n div 10) @ [digit_char (n mod 10)])"
  by pat_completeness auto
termination
  by (relation "measure id") auto

definition py_str :: "int \<Rightarrow> string" where
  \<comment> \<open>\<open>str(n)\<close> of an integer\<close>
  "py_str i = (if i < 0 then CHR ''-'' # str_nat (nat (- i)) else str_nat (nat i))"

section \<open>Version normalisation\<close>

text \<open>
  \<^verbatim>\<open>
  def norm_version(v):
      if not v: return None
      v = v.strip().lstrip("vV").replace("_",".").replace("-", ".")
      parts = [p for p in v.split(".") if p]
      try:
          nums = [int(p) for p in parts[:3]]
      except ValueError:
          return None
      while len(nums) < 3:
          nums.append(0)
      return tuple(nums[:3])
  \<close>
  \<open>version_parts\<close> is the list \<open>parts\<close>: the non-empty pieces between separators of
  the trimmed text. \<open>pad_nums\<close> is the \<open>while\<close> loop. The result tuple has three
  entries, read from the first three positions of the padded list.
\<close>

definition version_parts :: "string \<Rightarrow> string list" where
  "version_parts v =
     filter (\<lambda>p. p \<noteq> [])
       (py_split CHR ''.''
          (py_replace CHR ''-'' CHR ''.''
             (py_replace CHR ''_'' CHR ''.'' (py_lstrip ''vV'' (py_strip v)))))"

function pad_nums :: "int list \<Rightarrow> int list" where
  "pad_nums nums = (if length nums < 3 then pad_nums (nums @ [0]) else nums)"
  by pat_completeness auto
termination
  by (relation "measure (\<lambda>nums. 3 - length nums)") auto

definition norm_version :: "string \<Rightarrow> (int \<times> int \<times> int) option" where
  "norm_version v =
     (if v = [] then None
      else (case those (map py_int (take 3 (version_parts v))) of
              None \<Rightarrow> None
            | Some nums \<Rightarrow>
                (let ns = take 3 (pad_nums nums) in Some (ns ! 0, ns ! 1, ns ! 2))))"

definition version_equal :: "string \<Rightarrow> string \<Rightarrow> bool" where
  "version_equal a b =
     (let na = norm_version a; nb = norm_version b
      in na \<noteq> None \<and> nb \<noteq> None \<and> na = nb)"

definition normalize_version_string :: "string \<Rightarrow> string option" where
  \<comment> \<open>a tuple of three entries is never falsy, so the result is absent exactly when
      \<open>norm_version\<close> is\<close>
  "normalize_version_string v =
     (case norm_version v of
        None \<Rightarrow> None
      | Some (a, b, c) \<Rightarrow> Some (py_join ''.'' [py_str a, py_str b, py_str c]))"

section \<open>The regular expressions\<close>

text \<open>
  Each pattern of the program is a function on a position of the text: it gets the
  character before the position (\<open>None\<close> at the start of the text) and the text from
  the position on, and returns the first capture group with the number of characters
  the match spans. \<open>re_search\<close> is \<open>pattern.search\<close>: the leftmost position
  that matches. \<open>re_findall\<close> is \<open>pattern.findall\<close> and \<open>pattern.finditer\<close>: the
  scan goes on where the previous match ended, so matches never overlap. Every pattern
  of the program spans four characters or more.
\<close>

type_synonym matcher = "char option \<Rightarrow> string \<Rightarrow> (string \<times> nat) option"

fun re_search :: "matcher \<Rightarrow> char option \<Rightarrow> string \<Rightarrow> string option" where
  "re_search m prev [] = map_option fst (m prev [])"
| "re_search m prev (c # cs) =
     (case m prev (c # cs) of
        Some (g, n) \<Rightarrow> Some g
      | None \<Rightarrow> re_search m (Some c) cs)"

function re_findall :: "matcher \<Rightarrow> char option \<Rightarrow> string \<Rightarrow> string list" where
  "re_findall m prev s =
     (case m prev s of
        Some (g, n) \<Rightarrow>
          (if 0 < n \<and> n \<le> length s then g # re_findall m (Some (s ! (n - 1))) (drop n s)
           else [g])
      | None \<Rightarrow> (case s of [] \<Rightarrow> [] | c # cs \<Rightarrow> re_findall m (Some c) cs))"
  by pat_completeness auto
termination
  by (relation "measure (\<lambda>(m, prev, s). length s)") auto

definition lower_char :: "char \<Rightarrow> char" where
  "lower_char c =
     (if CHR ''A'' \<le> c \<and> c \<le> CHR ''Z'' then char_of (of_char c + (32::nat)) else c)"

definition four_letters :: "string \<Rightarrow> bool" where
  \<comment> \<open>the text starts with \<open>[A-Za-z]{4}\<close>\<close>
  "four_letters s \<longleftrightarrow> length (take 4 s) = 4 \<and> list_all is_letter (take 4 s)"

definition at_dollar :: "string \<Rightarrow> bool" where
  \<comment> \<open>\<open>$\<close>: the end of the text, or just before a newline that ends it\<close>
  "at_dollar s \<longleftrightarrow> s = [] \<or> s = [CHR 0x0A]"

definition RE_ICAO_IN_DESC :: matcher where
  \<comment> \<open>\<open>ICAO:\s*([A-Za-z]{4})\<close>, ignoring case\<close>
  "RE_ICAO_IN_DESC prev s =
     (if map lower_char (take 5 s) = ''icao:'' then
        (let ws = takeWhile is_space (drop 5 s); r = dropWhile is_space (drop 5 s)
         in if four_letters r then Some (take 4 r, 5 + length ws + 4) else None)
      else None)"

definition RE_ANY_ICAO :: matcher where
  \<comment> \<open>\<open>\b([A-Za-z]{4})\b\<close>\<close>
  "RE_ANY_ICAO prev s =
     (if four_letters s
         \<and> (case prev of None \<Rightarrow> True | Some p \<Rightarrow> \<not> is_word p)
         \<and> (case drop 4 s of [] \<Rightarrow> True | c # r \<Rightarrow> \<not> is_word c)
      then Some (take 4 s, 4) else None)"

definition delimited_token :: "string \<Rightarrow> nat \<Rightarrow> string \<Rightarrow> (string \<times> nat) option" where
  \<comment> \<open>\<open>([A-Za-z]{4})\<close> followed by \<open>$\<close> or by one delimiter, which the match spans too;
      \<open>off\<close> is what the match spans before the token\<close>
  "delimited_token delims off t =
     (if four_letters t then
        (if at_dollar (drop 4 t) then Some (take 4 t, off + 4)
         else (case drop 4 t of
                 [] \<Rightarrow> None
               | c # r \<Rightarrow> if c \<in> set delims then Some (take 4 t, off + 5) else None))
      else None)"

definition delimited :: "string \<Rightarrow> matcher" where
  \<comment> \<open>\<open>(?:^|[delims])([A-Za-z]{4})(?:$|[delims])\<close>: the start of the text or one
      delimiter, four letters, the end of the text or one delimiter\<close>
  "delimited delims prev s =
     (case (if prev = None then delimited_token delims 0 s else None) of
        Some r \<Rightarrow> Some r
      | None \<Rightarrow>
          (case s of
             [] \<Rightarrow> None
           | c # cs \<Rightarrow> if c \<in> set delims then delimited_token delims 1 cs else None))"

definition RE_FOLDER_ICAO :: matcher where
  \<comment> \<open>\<open>(?:^|[-_ ])([A-Za-z]{4})(?:$|[-_ ])\<close>\<close>
  "RE_FOLDER_ICAO = delimited ''-_ ''"

definition RE_SLUG_ICAO :: matcher where
  \<comment> \<open>\<open>(?:^|[-_/])([a-z]{4})(?:[-_/]|$)\<close>, ignoring case\<close>
  "RE_SLUG_ICAO = delimited ''-_/''"

fun version_groups :: "nat \<Rightarrow> string \<Rightarrow> string \<Rightarrow> (string \<times> string) list" where
  \<comment> \<open>the ways \<open>(?:[.\-_]\d+){0,k}\<close> can match after the text \<open>acc\<close>, the longest
      first, each with the text left over\<close>
  "version_groups 0 acc r = [(acc, r)]"
| "version_groups (Suc k) acc r =
     (case r of
        [] \<Rightarrow> [(acc, r)]
      | c # r' \<Rightarrow>
          if c \<in> set ''.-_'' \<and> takeWhile is_digit r' \<noteq> []
          then version_groups k (acc @ c # takeWhile is_digit r') (dropWhile is_digit r') @ [(acc, r)]
          else [(acc, r)])"

definition version_token :: "nat \<Rightarrow> string \<Rightarrow> (string \<times> nat) option" where
  \<comment> \<open>\<open>v?(\d+(?:[.\-_]\d+){0,3})(?:\b|$)\<close>, ignoring case: the group ends in a digit,
      so the text may go on with a character that is not a word character only\<close>
  "version_token off t =
     (let hasv = (case t of [] \<Rightarrow> False | c # r \<Rightarrow> c = CHR ''v'' \<or> c = CHR ''V'');
          t0 = (if hasv then tl t else t);
          d0 = takeWhile is_digit t0
      in if d0 = [] then None
         else (case find (\<lambda>(g, r). case r of [] \<Rightarrow> True | c # r' \<Rightarrow> \<not> is_word c)
                      (version_groups 3 d0 (dropWhile is_digit t0)) of
                 None \<Rightarrow> None
               | Some (g, r) \<Rightarrow> Some (g, off + (if hasv then 1 else 0) + length g)))"

definition RE_VERSION_IN_TITLE :: matcher where
  \<comment> \<open>\<open>(?:^|[\s\-_])v?(\d+(?:[.\-_]\d+){0,3})(?:\b|$)\<close>, ignoring case\<close>
  "RE_VERSION_IN_TITLE prev s =
     (case (if prev = None then version_token 0 s else None) of
        Some r \<Rightarrow> Some r
      | None \<Rightarrow>
          (case s of
             [] \<Rightarrow> None
           | c # cs \<Rightarrow>
               if is_space c \<or> c = CHR ''-'' \<or> c = CHR ''_'' then version_token 1 cs else None))"

section \<open>Identifier and version extraction\<close>

definition extract_version_from_title :: "string \<Rightarrow> string option" where
  "extract_version_from_title title =
     (case re_search RE_VERSION_IN_TITLE None title of
        None \<Rightarrow> None
      | Some g \<Rightarrow> normalize_version_string g)"

definition find_icaos_in_entry :: "string \<Rightarrow> string \<Rightarrow> string \<Rightarrow> string list" where
  "find_icaos_in_entry title desc page_url =
     (case re_search RE_ICAO_IN_DESC None desc of
        Some g \<Rightarrow> [py_upper g]
      | None \<Rightarrow>
          (let t_found = map py_upper (re_findall RE_ANY_ICAO None title);
               slug_found = map py_upper (re_findall RE_SLUG_ICAO None page_url)
           in sort (remdups (t_found @ slug_found))))"

definition is_alpha :: "char \<Rightarrow> bool" where
  \<comment> \<open>the letters among the code points below 256\<close>
  "is_alpha c \<longleftrightarrow>
     (let n = (of_char c :: nat)
      in is_letter c \<or> n = 170 \<or> n = 181 \<or> n = 186
         \<or> (192 \<le> n \<and> n \<le> 214) \<or> (216 \<le> n \<and> n \<le> 246) \<or> 248 \<le> n)"

definition py_isalpha :: "string \<Rightarrow> bool" where
  "py_isalpha s \<longleftrightarrow> s \<noteq> [] \<and> list_all is_alpha s"

definition folder_icao :: "string \<Rightarrow> string option" where
  "folder_icao folder_name =
     (case re_search RE_FOLDER_ICAO None folder_name of
        None \<Rightarrow> None
      | Some tok \<Rightarrow>
          if tok \<noteq> [] \<and> length tok = 4 \<and> py_isalpha tok then Some (py_upper tok) else None)"

definition title_icao :: "string \<Rightarrow> string option" where
  \<comment> \<open>the loop of \<open>manifest_icao_from_title\<close> over the matches of \<open>RE_ANY_ICAO\<close>\<close>
  "title_icao t =
     map_option py_upper
       (find (\<lambda>tok. length tok = 4 \<and> py_isalpha tok) (re_findall RE_ANY_ICAO None t))"

section \<open>Parsed JSON\<close>

text \<open>
  What \<open>json.loads\<close> returns: \<open>None\<close>, a \<open>bool\<close>, a number, a \<open>str\<close>, a \<open>list\<close>
  or a \<open>dict\<close>. The pairs of a \<open>JObj\<close> are the items of the \<open>dict\<close> in insertion
  order, each key once. The program uses a number for its truth value only, so numbers
  are integers here. A file is modelled by what reading and parsing it gives; the text
  \<open>json.dumps\<close> writes is taken to parse back to the value written.
\<close>

datatype json =
    JNull
  | JBool bool
  | JInt int
  | JStr string
  | JArr "json list"
  | JObj "(string \<times> json) list"

datatype py_error = AttributeError | TypeError | OSError

fun truthy :: "json \<Rightarrow> bool" where
  "truthy JNull = False"
| "truthy (JBool b) = b"
| "truthy (JInt n) = (n \<noteq> 0)"
| "truthy (JStr s) = (s \<noteq> [])"
| "truthy (JArr xs) = (xs \<noteq> [])"
| "truthy (JObj kv) = (kv \<noteq> [])"

definition py_or :: "json \<Rightarrow> json \<Rightarrow> json" where
  \<comment> \<open>\<open>a or b\<close>\<close>
  "py_or a b = (if truthy a then a else b)"

definition dict_get :: "(string \<times> json) list \<Rightarrow> string \<Rightarrow> json \<Rightarrow> json" where
  \<comment> \<open>\<open>d.get(k, default)\<close> on a \<open>dict\<close>\<close>
  "dict_get d k dflt = (case map_of d k of None \<Rightarrow> dflt | Some v \<Rightarrow> v)"

definition py_get :: "json \<Rightarrow> string \<Rightarrow> json \<Rightarrow> py_error + json" where
  \<comment> \<open>\<open>x.get(k, default)\<close> on any value: only a \<open>dict\<close> has the method\<close>
  "py_get x k dflt = (case x of JObj d \<Rightarrow> Inr (dict_get d k dflt) | _ \<Rightarrow> Inl AttributeError)"

definition str_strip :: "json \<Rightarrow> py_error + string" where
  \<comment> \<open>\<open>x.strip()\<close> on any value: only a \<open>str\<close> has the method\<close>
  "str_strip x = (case x of JStr s \<Rightarrow> Inr (py_strip s) | _ \<Rightarrow> Inl AttributeError)"

section \<open>Configuration\<close>

text \<open>
  \<open>_arg_or_env_str\<close> resolves the accepted tag from the command line, then from the
  environment, then from the default. \<open>env_val\<close> is \<open>os.environ.get(env_name)\<close>.
\<close>

definition DEFAULT_ACCEPTED_TAG :: string where
  "DEFAULT_ACCEPTED_TAG = ''MSFS 2020/2024''"

fun find_flag :: "string \<Rightarrow> string list \<Rightarrow> string option" where
  \<comment> \<open>the loop over \<open>sys.argv\<close>: \<open>flag=value\<close>, or \<open>flag\<close> and the next argument\<close>
  "find_flag flag [] = None"
| "find_flag flag (a # rest) =
     (if prefix (flag @ ''='') a then Some (tl (dropWhile (\<lambda>c. c \<noteq> CHR ''='') a))
      else if a = flag \<and> rest \<noteq> [] then Some (hd rest)
      else find_flag flag rest)"

definition arg_or_env_str :: "string \<Rightarrow> string option \<Rightarrow> string \<Rightarrow> string list \<Rightarrow> string" where
  "arg_or_env_str flag env_val dflt argv =
     (let val0 = find_flag flag argv;
          val1 = (if val0 = None \<or> val0 = Some [] then env_val else val0)
      in case val1 of None \<Rightarrow> dflt | Some v \<Rightarrow> if v \<noteq> [] then v else dflt)"

definition ACCEPTED_TAG :: "string list \<Rightarrow> string option \<Rightarrow> string" where
  "ACCEPTED_TAG argv env_val =
     arg_or_env_str ''--accepted-tag'' env_val DEFAULT_ACCEPTED_TAG argv"

text \<open>
  The resolved settings of a run. Every source directory lies under \<open>ADDONS_ROOT\<close>
  and has its drive, so \<open>same_drive(src_dir, DEST_ROOT)\<close> compares
  \<open>addons_drive\<close> with \<open>dest_drive\<close>.
\<close>

record config =
  apply_mode :: bool
  accepted_tag :: string
  space_margin :: int
  addons_drive :: string
  dest_drive :: string

definition same_drive :: "string \<Rightarrow> string \<Rightarrow> bool" where
  "same_drive a b \<longleftrightarrow> py_upper a = py_upper b"

section \<open>Feed indexing\<close>

record feed_item =
  title :: string
  description :: string
  page_url :: string
  tag :: string
  version :: "string option"
  icaos :: "string list"

definition FeedItem :: "(string \<times> json) list \<Rightarrow> py_error + feed_item" where
  \<comment> \<open>the constructor: \<open>.strip()\<close> raises on a field that is truthy and not a \<open>str\<close>\<close>
  "FeedItem raw =
     (case str_strip (py_or (dict_get raw ''title'' JNull) (JStr [])) of
        Inl e \<Rightarrow> Inl e
      | Inr t \<Rightarrow>
     (case str_strip (py_or (dict_get raw ''description'' JNull) (JStr [])) of
        Inl e \<Rightarrow> Inl e
      | Inr d \<Rightarrow>
     (case str_strip (py_or (py_or (dict_get raw ''page_url'' JNull)
                                   (dict_get raw ''link'' JNull)) (JStr [])) of
        Inl e \<Rightarrow> Inl e
      | Inr u \<Rightarrow>
     (case str_strip (py_or (py_or (dict_get raw ''tag'' JNull)
                                   (dict_get raw ''category'' JNull)) (JStr [])) of
        Inl e \<Rightarrow> Inl e
      | Inr g \<Rightarrow>
          Inr \<lparr> title = t, description = d, page_url = u, tag = g,
                version = extract_version_from_title t,
                icaos = find_icaos_in_entry t d u \<rparr>))))"

definition is_msfs :: "string \<Rightarrow> feed_item \<Rightarrow> bool" where
  "is_msfs acc item \<longleftrightarrow> tag item = acc \<and> version item \<noteq> None \<and> length (icaos item) > 0"

type_synonym feed_index = "string \<times> string \<Rightarrow> string option"

definition add_item :: "string \<Rightarrow> feed_index \<Rightarrow> feed_item \<Rightarrow> feed_index" where
  "add_item acc idx item =
     (if \<not> is_msfs acc item then idx
      else (case version item of
              None \<Rightarrow> idx
            | Some v \<Rightarrow> fold (\<lambda>icao m. m((py_upper icao, v) \<mapsto> tag item)) (icaos item) idx))"

fun add_raw_items :: "string \<Rightarrow> feed_index \<Rightarrow> json list \<Rightarrow> py_error + feed_index" where
  \<comment> \<open>the loop over the entries of one source\<close>
  "add_raw_items acc idx [] = Inr idx"
| "add_raw_items acc idx (raw # rest) =
     (case raw of
        JObj kv \<Rightarrow>
          (case FeedItem kv of
             Inl e \<Rightarrow> Inl e
           | Inr item \<Rightarrow>
               add_raw_items acc (if is_msfs acc item then add_item acc idx item else idx) rest)
      | _ \<Rightarrow> add_raw_items acc idx rest)"

definition feed_items_of :: "json \<Rightarrow> json list option" where
  \<comment> \<open>the list of entries of a source; \<open>None\<close> when the source is skipped\<close>
  "feed_items_of data =
     (case (case data of JObj kv \<Rightarrow> dict_get kv ''items'' JNull | _ \<Rightarrow> data) of
        JArr xs \<Rightarrow> Some xs
      | _ \<Rightarrow> None)"

fun load_files :: "string \<Rightarrow> feed_index \<Rightarrow> (string \<times> json option) list \<Rightarrow> py_error + feed_index" where
  \<comment> \<open>the loop over the sources; the content is \<open>None\<close> when reading or parsing raised\<close>
  "load_files acc idx [] = Inr idx"
| "load_files acc idx ((name, content) # rest) =
     (case content of
        None \<Rightarrow> load_files acc idx rest
      | Some data \<Rightarrow>
          (case feed_items_of data of
             None \<Rightarrow> load_files acc idx rest
           | Some items \<Rightarrow>
               (case add_raw_items acc idx items of
                  Inl e \<Rightarrow> Inl e
                | Inr idx' \<Rightarrow> load_files acc idx' rest)))"

definition feed_order :: "(string \<times> json option) list \<Rightarrow> (string \<times> json option) list" where
  \<comment> \<open>\<open>sorted(feed_root.glob("*.json"))\<close>: the sources of one directory, by name;
      names are compared as \<open>str\<close> values are (\<open>pathlib\<close> folds the case first
      on Windows)\<close>
  "feed_order files = sort_key fst files"

definition load_feed_index :: "string \<Rightarrow> (string \<times> json option) list \<Rightarrow> py_error + feed_index" where
  "load_feed_index acc files = load_files acc Map.empty (feed_order files)"

section \<open>Processing one manifest\<close>

text \<open>
  The body of the loop of \<open>main\<close> for one \<open>manifest.json\<close>. What the body observes
  of the file system is the record \<open>obs\<close>: the result of reading and parsing the
  manifest (\<open>None\<close> when either raised), whether the destination directory exists, the
  size of the source tree and the free space of the destination volume (\<open>None\<close> when
  the query raised), what \<open>write_text\<close> does, and whether \<open>shutil.move\<close> succeeds.
  The body returns the counters it increments, in order, the calls with an effect it
  makes, in order, and the exception that leaves it, if one does.
\<close>

datatype outcome =
    will_update | updated | noop | no_version | no_match | bad_json
  | will_move | moved | skip_exist | move_failed | will_no_space | no_space

datatype write_result =
    WriteOk
  | WriteDenied  \<comment> \<open>the file cannot be opened for writing: it keeps its content\<close>
  | WriteTorn    \<comment> \<open>the file was opened, hence truncated, and the write raised\<close>

datatype effect =
    FileWrite "(string \<times> json) list"  \<comment> \<open>\<open>man_path.write_text(json.dumps(manifest, ...))\<close>\<close>
  | SpaceCheck                          \<comment> \<open>\<open>directory_size_bytes\<close> and \<open>shutil.disk_usage\<close>\<close>
  | MoveAttempt                         \<comment> \<open>\<open>mkdir\<close> of the parent and \<open>shutil.move\<close>\<close>

record obs =
  read_result :: "json option"
  dest_exists :: bool
  space :: "(nat \<times> nat) option"
  write_res :: write_result
  move_ok :: bool

record step_result =
  outcomes :: "outcome list"
  effects :: "effect list"
  raised :: "py_error option"

definition finish :: "outcome list \<Rightarrow> effect list \<Rightarrow> step_result" where
  "finish os es = \<lparr> outcomes = os, effects = es, raised = None \<rparr>"

definition raise :: "py_error \<Rightarrow> effect list \<Rightarrow> step_result" where
  "raise e es = \<lparr> outcomes = [], effects = es, raised = Some e \<rparr>"

definition manifest_icao_from_title :: "json \<Rightarrow> py_error + string option" where
  \<comment> \<open>\<open>finditer\<close> raises \<open>TypeError\<close> on a title that is truthy and not a \<open>str\<close>\<close>
  "manifest_icao_from_title manifest_title =
     (case py_or manifest_title (JStr []) of
        JStr t \<Rightarrow> Inr (title_icao t)
      | _ \<Rightarrow> Inl TypeError)"

definition attempt_move :: "obs \<Rightarrow> effect list \<Rightarrow> outcome list \<times> effect list" where
  "attempt_move ob es =
     (if move_ok ob then ([moved], es @ [MoveAttempt]) else ([move_failed], es @ [MoveAttempt]))"

definition relocate :: "config \<Rightarrow> obs \<Rightarrow> outcome list \<times> effect list" where
  \<comment> \<open>the branch \<open>if after == ACCEPTED_TAG\<close>\<close>
  "relocate cfg ob =
     (let is_rename = same_drive (addons_drive cfg) (dest_drive cfg)
      in if apply_mode cfg then
           (if dest_exists ob then ([skip_exist], [])
            else if \<not> is_rename then
              (case space ob of
                 Some (size_bytes, free_bytes) \<Rightarrow>
                   if int size_bytes + space_margin cfg > int free_bytes
                   then ([no_space], [SpaceCheck])
                   else attempt_move ob [SpaceCheck]
               | None \<Rightarrow> attempt_move ob [SpaceCheck])
            else attempt_move ob [])
         else
           (if dest_exists ob then ([skip_exist], [])
            else if is_rename then ([will_move], [])
            else
              (case space ob of
                 Some (size_bytes, free_bytes) \<Rightarrow>
                   if int size_bytes + space_margin cfg > int free_bytes
                   then ([will_no_space], [SpaceCheck])
                   else ([will_move], [SpaceCheck])
               | None \<Rightarrow> ([will_move], [SpaceCheck]))))"

definition tag_and_move ::
  "config \<Rightarrow> obs \<Rightarrow> (string \<times> json) list \<Rightarrow> string \<Rightarrow> step_result" where
  \<comment> \<open>from \<open>before = manifest.get("simType")\<close> to the end of the body\<close>
  "tag_and_move cfg ob manifest after =
     (let before_tag = dict_get manifest ''simType'' JNull;
          needs_update = (before_tag \<noteq> JStr after);
          written = AList.update ''simType'' (JStr after) manifest
      in if apply_mode cfg \<and> needs_update \<and> write_res ob \<noteq> WriteOk
         then raise OSError [FileWrite written]
         else
           (let first = (if apply_mode cfg
                         then (if needs_update then [updated] else [noop])
                         else (if needs_update then [will_update] else [noop]));
                es = (if apply_mode cfg \<and> needs_update then [FileWrite written] else [])
            in if after = accepted_tag cfg
               then (case relocate cfg ob of (os, es') \<Rightarrow> finish (first @ os) (es @ es'))
               else finish first es))"

definition resolve_tag :: "feed_index \<Rightarrow> string \<Rightarrow> json \<Rightarrow> py_error + (outcome + string)" where
  \<comment> \<open>from \<open>man_version = ...\<close> to the look-up in the index: the tag the feed gives,
      or the counter of the check that ends the body, or the exception raised\<close>
  "resolve_tag idx folder_name manifest =
     (case py_get manifest ''package_version'' JNull of
        Inl e \<Rightarrow> Inl e
      | Inr pv \<Rightarrow>
     (case str_strip (py_or pv (JStr [])) of
        Inl e \<Rightarrow> Inl e
      | Inr man_version \<Rightarrow>
          if man_version = [] then Inr (Inl no_version)
          else
     (case normalize_version_string man_version of
        None \<Rightarrow> Inr (Inl no_version)
      | Some man_version_norm \<Rightarrow>
     (case (case folder_icao folder_name of
              Some i \<Rightarrow> Inr (Some i)
            | None \<Rightarrow>
                (case py_get manifest ''title'' (JStr []) of
                   Inl e \<Rightarrow> Inl e
                 | Inr t \<Rightarrow> manifest_icao_from_title t)) of
        Inl e \<Rightarrow> Inl e
      | Inr None \<Rightarrow> Inr (Inl no_match)
      | Inr (Some icao) \<Rightarrow>
     (case idx (py_upper icao, man_version_norm) of
        None \<Rightarrow> Inr (Inl no_match)
      | Some tg \<Rightarrow> if tg = [] then Inr (Inl no_match) else Inr (Inr tg))))))"

definition process_manifest ::
  "config \<Rightarrow> feed_index \<Rightarrow> string \<Rightarrow> obs \<Rightarrow> step_result" where
  "process_manifest cfg idx folder_name ob =
     (case read_result ob of
        None \<Rightarrow> finish [bad_json] []
      | Some manifest \<Rightarrow>
          (case resolve_tag idx folder_name manifest of
             Inl e \<Rightarrow> raise e []
           | Inr (Inl stop) \<Rightarrow> finish [stop] []
           | Inr (Inr tg) \<Rightarrow>
               (case manifest of
                  JObj d \<Rightarrow> tag_and_move cfg ob d tg
                | _ \<Rightarrow> raise AttributeError [])))"

section \<open>The loop over the manifests\<close>

text \<open>
  The package directories are paths relative to the addons root; the destination of a
  directory is the same relative path under the destination root. \<open>manifests\<close> holds
  the \<open>manifest.json\<close> files under the addons root with what reading and parsing
  gives, in the order \<open>rglob\<close> lists them; \<open>dest_dirs\<close> holds the directories
  that exist under the destination root. What the operating system decides (whether a
  write or a move succeeds, sizes and free space) is the record \<open>world\<close>.
  A move that fails is taken to leave both trees as they were.
\<close>

type_synonym path = "string list"

record fs =
  manifests :: "(path \<times> json option) list"
  dest_dirs :: "path list"

record world =
  root_name :: string
  write_behaviour :: "fs \<Rightarrow> path \<Rightarrow> write_result"
  space_info :: "fs \<Rightarrow> path \<Rightarrow> (nat \<times> nat) option"
  move_succeeds :: "fs \<Rightarrow> path \<Rightarrow> bool"

definition folder_name_of :: "world \<Rightarrow> path \<Rightarrow> string" where
  \<comment> \<open>\<open>man_path.parent.name\<close>\<close>
  "folder_name_of w p = (if p = [] then root_name w else last p)"

definition observe :: "world \<Rightarrow> fs \<Rightarrow> path \<Rightarrow> obs" where
  "observe w s p =
     \<lparr> read_result = (case map_of (manifests s) p of Some (Some j) \<Rightarrow> Some j | _ \<Rightarrow> None),
       dest_exists = (p \<in> set (dest_dirs s)),
       space = space_info w s p,
       write_res = write_behaviour w s p,
       move_ok = move_succeeds w s p \<rparr>"

definition commit :: "obs \<Rightarrow> path \<Rightarrow> effect \<Rightarrow> fs \<Rightarrow> fs" where
  "commit ob p e s =
     (case e of
        FileWrite m \<Rightarrow>
          (case write_res ob of
             WriteOk \<Rightarrow> s\<lparr> manifests := AList.update p (Some (JObj m)) (manifests s) \<rparr>
           | WriteDenied \<Rightarrow> s
           | WriteTorn \<Rightarrow> s\<lparr> manifests := AList.update p None (manifests s) \<rparr>)
      | SpaceCheck \<Rightarrow> s
      | MoveAttempt \<Rightarrow>
          if move_ok ob
          then s\<lparr> manifests := filter (\<lambda>(q, c). \<not> prefix p q) (manifests s),
                  dest_dirs := prefixes p @ filter (prefix p) (map fst (manifests s)) @ dest_dirs s \<rparr>
          else s)"

definition process_path ::
  "world \<Rightarrow> config \<Rightarrow> feed_index \<Rightarrow> fs \<Rightarrow> path \<Rightarrow> step_result \<times> fs" where
  "process_path w cfg idx s p =
     (let ob = observe w s p;
          r = process_manifest cfg idx (folder_name_of w p) ob
      in (r, fold (commit ob p) (effects r) s))"

fun run_loop ::
  "world \<Rightarrow> config \<Rightarrow> feed_index \<Rightarrow> path list \<Rightarrow> outcome list \<Rightarrow> fs
     \<Rightarrow> outcome list \<times> py_error option \<times> fs" where
  "run_loop w cfg idx [] log s = (log, None, s)"
| "run_loop w cfg idx (p # ps) log s =
     (case process_path w cfg idx s p of
        (r, s') \<Rightarrow>
          (case raised r of
             Some e \<Rightarrow> (log @ outcomes r, Some e, s')
           | None \<Rightarrow> run_loop w cfg idx ps (log @ outcomes r) s'))"

definition run ::
  "world \<Rightarrow> config \<Rightarrow> feed_index \<Rightarrow> fs \<Rightarrow> outcome list \<times> py_error option \<times> fs" where
  \<comment> \<open>the manifests are collected first, then processed one by one\<close>
  "run w cfg idx s = run_loop w cfg idx (map fst (manifests s)) [] s"


section \<open>Well-formed version texts\<close>

text \<open>
  The version strings the normaliser is written for: an optional \<open>v\<close> or \<open>V\<close>, then
  runs of decimal digits with one separator (\<open>.\<close>, \<open>_\<close> or \<open>-\<close>) between two
  runs. \<open>version_text pfx d rest\<close> is the text with first component \<open>d\<close> and the
  further components \<open>rest\<close>, each with the separator before it; \<open>triple_of\<close> is
  the triple of the first three values, padded with zeros on the right.
\<close>

definition is_separator :: "char \<Rightarrow> bool" where
  "is_separator c \<longleftrightarrow> c \<in> set ''._-''"

definition separator_variant :: "string \<Rightarrow> string \<Rightarrow> bool" where
  \<comment> \<open>two texts that differ in the choice of separators only\<close>
  "separator_variant s t \<longleftrightarrow>
     list_all2 (\<lambda>a b. a = b \<or> (is_separator a \<and> is_separator b)) s t"

definition digits :: "string \<Rightarrow> bool" where
  "digits ds \<longleftrightarrow> ds \<noteq> [] \<and> list_all is_digit ds"

definition dec_value :: "string \<Rightarrow> nat" where
  "dec_value ds = foldl (\<lambda>a c. a * 10 + digit_val c) 0 ds"

fun version_body :: "string \<Rightarrow> (char \<times> string) list \<Rightarrow> string" where
  "version_body d [] = d"
| "version_body d ((s, c) # rest) = d @ s # version_body c rest"

definition version_text :: "string \<Rightarrow> string \<Rightarrow> (char \<times> string) list \<Rightarrow> string" where
  "version_text pfx d rest = pfx @ version_body d rest"

definition well_formed_version :: "string \<Rightarrow> string \<Rightarrow> (char \<times> string) list \<Rightarrow> bool" where
  "well_formed_version pfx d rest \<longleftrightarrow>
     pfx \<in> {[], ''v'', ''V''} \<and> digits d \<and> list_all (\<lambda>(s, c). is_separator s \<and> digits c) rest"

definition triple_of :: "nat list \<Rightarrow> int \<times> int \<times> int" where
  "triple_of vals = (let ns = take 3 (map int vals @ [0, 0, 0]) in (ns ! 0, ns ! 1, ns ! 2))"

section \<open>Example inputs\<close>

text \<open>
  A feed of one source with one acceptable entry for \<open>KLAX\<close> at version \<open>1.2.0\<close>, a
  configuration in apply mode and one in dry-run mode, and an addons tree with two
  packages, of which the first matches the feed.
\<close>

definition example_feed :: "(string \<times> json option) list" where
  "example_feed =
     [(''2024-01.json'',
       Some (JObj [(''items'',
         JArr [JObj [(''title'', JStr ''Los Angeles Intl v1.2''),
                     (''description'', JStr ''Scenery. ICAO: klax''),
                     (''tag'', JStr ''MSFS 2020/2024'')]])]))]"

definition example_index :: feed_index where
  "example_index = Map.empty((''KLAX'', ''1.2.0'') \<mapsto> ''MSFS 2020/2024'')"

definition example_config :: "bool \<Rightarrow> config" where
  "example_config ap =
     \<lparr> apply_mode = ap, accepted_tag = DEFAULT_ACCEPTED_TAG,
       space_margin = 250, addons_drive = ''E:'', dest_drive = ''E:'' \<rparr>"

definition klax_manifest :: "(string \<times> json) list" where
  "klax_manifest =
     [(''title'', JStr ''Los Angeles''), (''package_version'', JStr ''1.2.0''),
      (''creator'', JStr ''cityscene'')]"

definition example_fs :: fs where
  "example_fs =
     \<lparr> manifests =
         [([''cityscene-klax-airport''], Some (JObj klax_manifest)),
          ([''cityscene-egll-airport''],
           Some (JObj [(''title'', JStr ''Heathrow''), (''package_version'', JStr ''2.0'')]))],
       dest_dirs = [[]] \<rparr>"

definition example_world :: "write_result \<Rightarrow> world" where
  "example_world wr =
     \<lparr> root_name = ''Airports'',
       write_behaviour = (\<lambda>s p. wr),
       space_info = (\<lambda>s p. Some (1000, 5000)),
       move_succeeds = (\<lambda>s p. True) \<rparr>"

section \<open>The reconciliation rules as the specification states them\<close>

text \<open>
  \<open>spec_reconcile\<close> follows the words of the specification: a parse failure gives
  \<open>bad_json\<close>; a declared version that is absent or does not normalise gives
  \<open>no_version\<close>; no identifier from the folder name, nor from the title, gives
  \<open>no_match\<close>; a key that the index does not hold gives \<open>no_match\<close>; otherwise
  the current tag is compared with the tag of the feed. \<open>typed_manifest\<close> holds of
  a manifest that is an object whose \<open>package_version\<close> and \<open>title\<close> are each
  absent, falsy or a string.
\<close>

definition str_or_falsy :: "json \<Rightarrow> bool" where
  "str_or_falsy x \<longleftrightarrow> (case x of JStr s \<Rightarrow> True | _ \<Rightarrow> \<not> truthy x)"

definition typed_manifest :: "json \<Rightarrow> bool" where
  "typed_manifest m \<longleftrightarrow>
     (case m of
        JObj d \<Rightarrow> str_or_falsy (dict_get d ''package_version'' JNull)
                  \<and> str_or_falsy (dict_get d ''title'' JNull)
      | _ \<Rightarrow> False)"

definition field_text :: "(string \<times> json) list \<Rightarrow> string \<Rightarrow> string" where
  \<comment> \<open>the text of a field; empty when the field is absent or not a string\<close>
  "field_text d k = (case dict_get d k JNull of JStr s \<Rightarrow> s | _ \<Rightarrow> [])"

definition spec_identifier :: "string \<Rightarrow> (string \<times> json) list \<Rightarrow> string option" where
  \<comment> \<open>the folder name first, the title of the manifest as fallback\<close>
  "spec_identifier folder_name d =
     (case folder_icao folder_name of
        Some i \<Rightarrow> Some i
      | None \<Rightarrow> title_icao (field_text d ''title''))"

definition spec_reconcile :: "bool \<Rightarrow> feed_index \<Rightarrow> string \<Rightarrow> json option \<Rightarrow> outcome" where
  "spec_reconcile ap idx folder_name content =
     (case content of
        None \<Rightarrow> bad_json
      | Some m \<Rightarrow>
          (case m of
             JObj d \<Rightarrow>
               (case normalize_version_string (py_strip (field_text d ''package_version'')) of
                  None \<Rightarrow> no_version
                | Some v \<Rightarrow>
                    (case spec_identifier folder_name d of
                       None \<Rightarrow> no_match
                     | Some i \<Rightarrow>
                         (case idx (i, v) of
                            None \<Rightarrow> no_match
                          | Some tg \<Rightarrow>
                              if dict_get d ''simType'' JNull = JStr tg then noop
                              else if ap then updated else will_update)))
           | _ \<Rightarrow> no_version))"

definition relocation_counters :: "outcome list" where
  "relocation_counters = [will_move, moved, skip_exist, move_failed, will_no_space, no_space]"


section \<open>The entries of a feed source\<close>

text \<open>
  \<open>acceptable_entries acc content\<close> lists the acceptable entries of a source: the
  objects of its list for which \<open>is_msfs\<close> holds. \<open>item_keys\<close> are the keys under
  which \<open>add_item\<close> stores an entry.
\<close>

definition item_keys :: "feed_item \<Rightarrow> (string \<times> string) list" where
  "item_keys item =
     (case version item of
        None \<Rightarrow> []
      | Some v \<Rightarrow> map (\<lambda>icao. (py_upper icao, v)) (icaos item))"

fun entries_of_raw :: "json \<Rightarrow> feed_item list" where
  "entries_of_raw (JObj kv) = (case FeedItem kv of Inr item \<Rightarrow> [item] | Inl e \<Rightarrow> [])"
| "entries_of_raw other = []"

definition acceptable_entries :: "string \<Rightarrow> json option \<Rightarrow> feed_item list" where
  "acceptable_entries acc content =
     (case content of
        None \<Rightarrow> []
      | Some data \<Rightarrow>
          (case feed_items_of data of
             None \<Rightarrow> []
           | Some items \<Rightarrow> filter (is_msfs acc) (concat (map entries_of_raw items))))"





section \<open>Verified properties\<close>

subsection \<open>Version normalisation\<close>

lemma is_digit_facts:
  "is_digit c \<Longrightarrow> \<not> is_space c \<and> \<not> is_int_space c \<and> c \<noteq> CHR ''.'' \<and> c \<noteq> CHR ''_'' \<and> c \<noteq> CHR ''-''
     \<and> c \<noteq> CHR ''+'' \<and> c \<noteq> CHR ''v'' \<and> c \<noteq> CHR ''V''"
  by (auto simp: is_digit_def is_space_def is_int_space_def Let_def less_eq_char_def)

lemma py_strip_id:
  assumes "s \<noteq> []" "\<not> is_space (hd s)" "\<not> is_space (last s)"
  shows "py_strip s = s"
proof -
  have 1: "dropWhile is_space s = s" using assms by (cases s) auto
  have "rev s \<noteq> []" "\<not> is_space (hd (rev s))" using assms by (auto simp: hd_rev)
  then have 2: "dropWhile is_space (rev s) = rev s" by (cases "rev s") auto
  show ?thesis by (simp add: py_strip_def 1 2)
qed

lemma int_strip_id:
  assumes "s \<noteq> []" "\<not> is_int_space (hd s)" "\<not> is_int_space (last s)"
  shows "int_strip s = s"
proof -
  have 1: "dropWhile is_int_space s = s" using assms by (cases s) auto
  have "rev s \<noteq> []" "\<not> is_int_space (hd (rev s))" using assms by (auto simp: hd_rev)
  then have 2: "dropWhile is_int_space (rev s) = rev s" by (cases "rev s") auto
  show ?thesis by (simp add: int_strip_def 1 2)
qed

lemma dec_digits_digits:
  "list_all is_digit ds \<Longrightarrow>
   dec_digits d acc ds = (if ds = [] then (if d then Some acc else None)
                          else Some (foldl (\<lambda>a c. a * 10 + digit_val c) acc ds))"
  by (induction ds arbitrary: d acc) auto

lemma py_int_digits:
  assumes "digits ds"
  shows "py_int ds = Some (int (dec_value ds))"
proof -
  from assms obtain c r where ds: "ds = c # r" and all: "list_all is_digit (c # r)"
    by (cases ds) (auto simp: digits_def)
  have hd: "is_digit c" using all by simp
  have lst: "is_digit (last ds)" using all ds by (metis last_in_set list.distinct(1) list_all_iff)
  have "int_strip ds = ds"
    using ds hd lst is_digit_facts by (intro int_strip_id) auto
  moreover have "dec_digits False 0 (c # r) = Some (dec_value ds)"
    using dec_digits_digits[OF all, of False 0] by (simp add: dec_value_def ds)
  ultimately show ?thesis
    using hd is_digit_facts[of c] by (simp add: py_int_def ds)
qed

lemma version_body_nonempty: "d \<noteq> [] \<Longrightarrow> version_body d rest \<noteq> []"
  by (cases rest) auto

lemma version_body_hd: "d \<noteq> [] \<Longrightarrow> hd (version_body d rest) = hd d"
  by (cases rest) auto

lemma version_body_last:
  "digits d \<Longrightarrow> list_all (\<lambda>(s, c). is_separator s \<and> digits c) rest \<Longrightarrow>
   is_digit (last (version_body d rest))"
proof (induction rest arbitrary: d)
  case Nil
  then show ?case by (metis digits_def last_in_set list_all_iff version_body.simps(1))
next
  case (Cons a rest)
  obtain s c where a: "a = (s, c)" by (cases a)
  with Cons.prems have "digits c" "list_all (\<lambda>(s, c). is_separator s \<and> digits c) rest" by auto
  from Cons.IH[OF this] show ?case
    using a \<open>digits c\<close> by (simp add: version_body_nonempty digits_def)
qed

lemma py_split_no_sep: "sep \<notin> set d \<Longrightarrow> py_split sep d = [d]"
  by (induction d) auto

lemma py_split_append: "sep \<notin> set d \<Longrightarrow> py_split sep (d @ sep # r) = d # py_split sep r"
  by (induction d) auto

lemma digits_no_dot: "digits d \<Longrightarrow> CHR ''.'' \<notin> set d"
  using is_digit_facts by (auto simp: digits_def list_all_iff)

lemma replace_digits:
  "list_all is_digit d \<Longrightarrow> py_replace CHR ''-'' CHR ''.'' (py_replace CHR ''_'' CHR ''.'' d) = d"
  using is_digit_facts by (induction d) (auto simp: py_replace_def)

lemma replace_body:
  "digits d \<Longrightarrow> list_all (\<lambda>(s, c). is_separator s \<and> digits c) rest \<Longrightarrow>
   py_replace CHR ''-'' CHR ''.'' (py_replace CHR ''_'' CHR ''.'' (version_body d rest))
     = version_body d (map (\<lambda>(s, c). (CHR ''.'', c)) rest)"
proof (induction rest arbitrary: d)
  case Nil
  then show ?case using replace_digits by (simp add: digits_def)
next
  case (Cons a rest)
  obtain s c where a: "a = (s, c)" by (cases a)
  with Cons.prems have c: "digits c" "list_all (\<lambda>(s, c). is_separator s \<and> digits c) rest"
    and s: "is_separator s" by auto
  have d: "py_replace CHR ''-'' CHR ''.'' (py_replace CHR ''_'' CHR ''.'' d) = d"
    using Cons.prems(1) replace_digits by (simp add: digits_def)
  have "py_replace CHR ''-'' CHR ''.'' (py_replace CHR ''_'' CHR ''.'' (d @ s # version_body c rest))
      = py_replace CHR ''-'' CHR ''.'' (py_replace CHR ''_'' CHR ''.'' d)
        @ CHR ''.'' # py_replace CHR ''-'' CHR ''.'' (py_replace CHR ''_'' CHR ''.'' (version_body c rest))"
    using s by (auto simp: py_replace_def is_separator_def)
  then show ?case using Cons.IH[OF c] d a by simp
qed

lemma split_body:
  "digits d \<Longrightarrow> list_all (\<lambda>(s, c). is_separator s \<and> digits c) rest \<Longrightarrow>
   py_split CHR ''.'' (version_body d (map (\<lambda>(s, c). (CHR ''.'', c)) rest)) = d # map snd rest"
proof (induction rest arbitrary: d)
  case Nil
  then show ?case by (simp add: py_split_no_sep digits_no_dot)
next
  case (Cons a rest)
  obtain s c where a: "a = (s, c)" by (cases a)
  with Cons.prems have c: "digits c" "list_all (\<lambda>(s, c). is_separator s \<and> digits c) rest" by auto
  show ?case using Cons.IH[OF c] a Cons.prems(1)
    by (simp add: py_split_append digits_no_dot)
qed

lemma version_parts_text:
  assumes "well_formed_version pfx d rest"
  shows "version_parts (version_text pfx d rest) = d # map snd rest"
proof -
  from assms have d: "digits d" and r: "list_all (\<lambda>(s, c). is_separator s \<and> digits c) rest"
    and p: "pfx \<in> {[], ''v'', ''V''}" by (auto simp: well_formed_version_def)
  let ?b = "version_body d rest"
  have dne: "d \<noteq> []" and hdd: "is_digit (hd d)" using d by (auto simp: digits_def list_all_iff)
  have bne: "?b \<noteq> []" using dne by (rule version_body_nonempty)
  have hdb: "is_digit (hd ?b)" using hdd dne by (simp add: version_body_hd)
  have lastb: "is_digit (last ?b)" using d r by (rule version_body_last)
  have hdt: "\<not> is_space (hd (pfx @ ?b))"
    using p hdb is_digit_facts[of "hd ?b"] bne by (auto simp: is_space_def)
  have lastt: "\<not> is_space (last (pfx @ ?b))" using lastb bne is_digit_facts by simp
  have 1: "py_strip (version_text pfx d rest) = pfx @ ?b"
    unfolding version_text_def using bne hdt lastt by (intro py_strip_id) auto
  have "dropWhile (\<lambda>c. c \<in> set ''vV'') ?b = ?b"
    using hdb is_digit_facts[of "hd ?b"] bne by (cases ?b) auto
  then have 2: "py_lstrip ''vV'' (pfx @ ?b) = ?b"
    using p by (auto simp: py_lstrip_def)
  have ne: "filter (\<lambda>p. p \<noteq> []) (d # map snd rest) = d # map snd rest"
    using dne r by (auto simp: filter_id_conv list_all_iff digits_def)
  show ?thesis
    by (simp only: version_parts_def 1 2 replace_body[OF d r] split_body[OF d r] ne)
qed

lemma those_py_int:
  "list_all digits cs \<Longrightarrow> those (map py_int cs) = Some (map (\<lambda>c. int (dec_value c)) cs)"
  by (induction cs) (auto simp: py_int_digits)

lemma pad_nums_take: "take 3 (pad_nums ns) = take 3 (ns @ [0, 0, 0])"
proof (induction ns rule: pad_nums.induct)
  case (1 nums)
  show ?case
  proof (cases "length nums < 3")
    case True
    then have "take 3 (pad_nums nums) = take 3 ((nums @ [0]) @ [0, 0, 0])"
      using 1 by (subst pad_nums.simps) simp
    also have "\<dots> = take 3 (nums @ [0, 0, 0])"
    proof -
      from True have "length nums = 0 \<or> length nums = 1 \<or> length nums = 2" by arith
      then show ?thesis by (auto simp: take_Cons')
    qed
    finally show ?thesis .
  next
    case False
    then show ?thesis by (subst pad_nums.simps) simp
  qed
qed

lemma norm_version_text:
  assumes "well_formed_version pfx d rest"
  shows "norm_version (version_text pfx d rest) = Some (triple_of (map dec_value (d # map snd rest)))"
proof -
  from assms have d: "digits d" and r: "list_all (\<lambda>(s, c). is_separator s \<and> digits c) rest"
    by (auto simp: well_formed_version_def)
  have ne: "version_text pfx d rest \<noteq> []"
    using d by (simp add: version_text_def version_body_nonempty digits_def)
  have "list_all digits (d # map snd rest)"
    using d r by (fastforce simp: list_all_iff)
  then have all: "list_all digits (take 3 (d # map snd rest))"
    unfolding list_all_iff using in_set_takeD by fast
  have tk: "take 3 (map (\<lambda>c. int (dec_value c)) (take 3 (d # map snd rest)) @ [0, 0, 0])
          = take 3 (map int (map dec_value (d # map snd rest)) @ [0, 0, 0])"
    by (cases rest; cases "tl rest"; cases "tl (tl rest)") (auto simp: take_map)
  have "norm_version (version_text pfx d rest)
        = (let ns = take 3 (pad_nums (map (\<lambda>c. int (dec_value c)) (take 3 (d # map snd rest))))
           in Some (ns ! 0, ns ! 1, ns ! 2))"
    unfolding norm_version_def
    by (simp only: ne version_parts_text[OF assms] those_py_int[OF all] if_False option.case)
  then show ?thesis
    by (simp only: Let_def pad_nums_take tk triple_of_def)
qed

lemma triple_of_zero_pad:
  assumes "list_all (\<lambda>v. v = 0) zs"
  shows "triple_of (vals @ zs) = triple_of vals"
proof -
  from assms have zs: "map int zs = replicate (length zs) 0"
    by (induction zs) auto
  have "[0, 0, 0] = replicate 3 (0::int)" by (simp add: numeral_3_eq_3)
  then have "take 3 (map int (vals @ zs) @ [0, 0, 0])
      = take 3 (map int vals @ replicate (length zs + 3) 0)"
    by (simp add: zs replicate_add)
  also have "\<dots> = take 3 (map int vals) @ replicate (min (3 - length vals) (length zs + 3)) 0"
    by simp
  also have "min (3 - length vals) (length zs + 3) = min (3 - length vals) 3" by simp
  also have "take 3 (map int vals) @ replicate (min (3 - length vals) 3) 0
      = take 3 (map int vals @ replicate 3 0)" by simp
  finally show ?thesis
    unfolding triple_of_def by (simp add: numeral_3_eq_3)
qed

lemma norm_version_examples:
  "norm_version ''1.2'' = Some (1, 2, 0)"
  "norm_version ''v1.2.0'' = Some (1, 2, 0)"
  "norm_version ''1_2_0'' = Some (1, 2, 0)"
  by (simp_all add: norm_version_def version_parts_def py_strip_def py_lstrip_def
      py_replace_def py_int_def int_strip_def is_int_space_def is_space_def is_digit_def
      digit_val_def)

lemma separator_variant_dropWhile:
  assumes "separator_variant s t" and "\<And>a. is_separator a \<Longrightarrow> \<not> P a"
  shows "separator_variant (dropWhile P s) (dropWhile P t)"
  using assms(1) unfolding separator_variant_def
proof (induction rule: list_all2_induct)
  case Nil
  then show ?case by simp
next
  case (Cons a s b t)
  then show ?case using assms(2) by auto
qed

lemma separator_variant_rev:
  "separator_variant s t \<Longrightarrow> separator_variant (rev s) (rev t)"
  by (simp add: separator_variant_def)

lemma separator_variant_replace:
  "separator_variant s t \<Longrightarrow>
   py_replace CHR ''-'' CHR ''.'' (py_replace CHR ''_'' CHR ''.'' s)
     = py_replace CHR ''-'' CHR ''.'' (py_replace CHR ''_'' CHR ''.'' t)"
  unfolding separator_variant_def
  by (induction rule: list_all2_induct) (auto simp: py_replace_def is_separator_def)

lemma separator_not_space: "is_separator a \<Longrightarrow> \<not> is_space a"
  by (auto simp: is_separator_def is_space_def)

lemma separator_not_v: "is_separator a \<Longrightarrow> \<not> a \<in> set ''vV''"
  by (auto simp: is_separator_def)

lemma separator_variant_parts:
  assumes "separator_variant s t"
  shows "version_parts s = version_parts t"
proof -
  have 1: "separator_variant (dropWhile is_space s) (dropWhile is_space t)"
    using assms separator_not_space by (rule separator_variant_dropWhile)
  have 2: "separator_variant (dropWhile is_space (rev (dropWhile is_space s)))
             (dropWhile is_space (rev (dropWhile is_space t)))"
    using separator_variant_rev[OF 1] separator_not_space by (rule separator_variant_dropWhile)
  have 3: "separator_variant (py_strip s) (py_strip t)"
    unfolding py_strip_def using 2 by (rule separator_variant_rev)
  have 4: "separator_variant (py_lstrip ''vV'' (py_strip s)) (py_lstrip ''vV'' (py_strip t))"
    unfolding py_lstrip_def using 3 separator_not_v by (rule separator_variant_dropWhile)
  show ?thesis
    unfolding version_parts_def by (simp only: separator_variant_replace[OF 4])
qed

lemma separator_variant_norm:
  assumes "separator_variant s t"
  shows "norm_version s = norm_version t"
proof -
  have "s = [] \<longleftrightarrow> t = []"
    using assms by (auto simp: separator_variant_def)
  then show ?thesis
    unfolding norm_version_def by (simp only: separator_variant_parts[OF assms])
qed

text \<open>
  Claim C2. Two version strings that differ only in the separators chosen, in an
  optional leading \<open>v\<close> or \<open>V\<close>, and in components of value zero added on the
  right normalise to the same triple: the first three component values, padded with
  zeros. In particular \<open>1.2\<close>, \<open>v1.2.0\<close> and \<open>1_2_0\<close> all normalise to
  \<open>(1, 2, 0)\<close> and are equal under \<open>version_equal\<close>. For the separators
  alone this holds of any two texts: texts that agree but for the separators chosen
  have the same normal form, or none.
\<close>

theorem version_equivalence:
  assumes "well_formed_version pfx1 d rest1"
    and "well_formed_version pfx2 d rest2"
    and "map snd rest2 = map snd rest1 @ zeros"
    and "list_all (\<lambda>z. dec_value z = 0) zeros"
  shows "norm_version (version_text pfx1 d rest1) = norm_version (version_text pfx2 d rest2)
       \<and> norm_version (version_text pfx1 d rest1) = Some (triple_of (map dec_value (d # map snd rest1)))
       \<and> norm_version ''1.2'' = Some (1, 2, 0)
       \<and> norm_version ''v1.2.0'' = Some (1, 2, 0)
       \<and> norm_version ''1_2_0'' = Some (1, 2, 0)
       \<and> version_equal ''1.2'' ''v1.2.0''
       \<and> version_equal ''v1.2.0'' ''1_2_0''
       \<and> version_equal ''1.2'' ''1_2_0''
       \<and> (\<forall>s t. separator_variant s t \<longrightarrow> norm_version s = norm_version t)"
proof -
  have z: "list_all (\<lambda>v. v = 0) (map dec_value zeros)"
    using assms(4) by (simp add: list_all_iff)
  have "triple_of (map dec_value (d # map snd rest2))
      = triple_of (map dec_value (d # map snd rest1) @ map dec_value zeros)"
    by (simp add: assms(3))
  also have "\<dots> = triple_of (map dec_value (d # map snd rest1))"
    using z by (rule triple_of_zero_pad)
  finally have "norm_version (version_text pfx1 d rest1) = norm_version (version_text pfx2 d rest2)"
    by (simp only: norm_version_text[OF assms(1)] norm_version_text[OF assms(2)])
  then show ?thesis
    by (simp add: norm_version_text[OF assms(1)] norm_version_examples version_equal_def
        separator_variant_norm)
qed

theorem version_equivalence_witness:
  "norm_version ''10.2'' = norm_version ''V10_2-00''
   \<and> norm_version ''10.2'' = Some (10, 2, 0)"
proof -
  have 1: "well_formed_version [] ''10'' [(CHR ''.'', ''2'')]"
    by (simp add: well_formed_version_def is_separator_def digits_def is_digit_def)
  have 2: "well_formed_version ''V'' ''10'' [(CHR ''_'', ''2''), (CHR ''-'', ''00'')]"
    by (simp add: well_formed_version_def is_separator_def digits_def is_digit_def)
  have 3: "map snd [(CHR ''_'', ''2''), (CHR ''-'', ''00'')] = map snd [(CHR ''.'', ''2'')] @ [''00'']"
    by simp
  have 4: "list_all (\<lambda>z. dec_value z = 0) [''00'']"
    by (simp add: dec_value_def digit_val_def)
  have e1: "version_text [] ''10'' [(CHR ''.'', ''2'')] = ''10.2''"
    and e2: "version_text ''V'' ''10'' [(CHR ''_'', ''2''), (CHR ''-'', ''00'')] = ''V10_2-00''"
    by (simp_all add: version_text_def)
  have e3: "triple_of (map dec_value (''10'' # map snd [(CHR ''.'', ''2'')])) = (10, 2, 0)"
    by (simp add: triple_of_def dec_value_def digit_val_def)
  show ?thesis
    using version_equivalence[OF 1 2 3 4] unfolding e1 e2 e3 by blast
qed





subsection \<open>Exceptions that leave the loop body\<close>

text \<open>
  Claim C1 (the order of the checks, exactly one outcome for every manifest). The
  order is as stated for a manifest that cannot be parsed and for a manifest that is an
  object with text fields; see \<open>reconcile_order\<close> below. A manifest that parses to
  something else gets no outcome at all: with a \<open>package_version\<close> that is a
  number, or with a manifest that is a list, \<open>.strip()\<close> or \<open>.get\<close> raises
  \<open>AttributeError\<close> outside every \<open>try\<close>, no counter is incremented and the
  exception leaves the body.
\<close>

theorem untyped_manifest_escapes:
  "process_manifest cfg idx folder_name
       (ob\<lparr> read_result := Some (JObj [(''package_version'', JInt 2)]) \<rparr>)
     = \<lparr> outcomes = [], effects = [], raised = Some AttributeError \<rparr>
   \<and> process_manifest cfg idx folder_name (ob\<lparr> read_result := Some (JArr []) \<rparr>)
     = \<lparr> outcomes = [], effects = [], raised = Some AttributeError \<rparr>"
  by (simp add: process_manifest_def resolve_tag_def py_get_def dict_get_def py_or_def
      str_strip_def raise_def)

text \<open>
  Claim C7 (no exception leaves the processing of one manifest; a failed rewrite
  neither leaves the manifest half-written nor ends the batch). In apply mode, with a
  manifest whose tag must change and a file that cannot be written, \<open>write_text\<close>
  raises outside every \<open>try\<close>: the run ends with \<open>OSError\<close>, no outcome is
  counted for this manifest and the second manifest is never processed. When the
  write fails after the file was opened, the manifest is left truncated. With a
  write that succeeds, the same run counts \<open>updated\<close>, \<open>moved\<close> and
  \<open>no_match\<close>.
\<close>

theorem write_failure_aborts_batch:
  "run (example_world WriteDenied) (example_config True) example_index example_fs
     = ([], Some OSError, example_fs)
   \<and> run (example_world WriteTorn) (example_config True) example_index example_fs
     = ([], Some OSError,
        example_fs\<lparr> manifests := AList.update [''cityscene-klax-airport''] None (manifests example_fs) \<rparr>)
   \<and> fst (run (example_world WriteOk) (example_config True) example_index example_fs)
     = [updated, moved, no_match]"
  by code_simp

subsection \<open>Identifiers of a feed entry\<close>

text \<open>
  Claim C5 (a labelled token in the description wins; otherwise all four-letter
  tokens of the title and all delimiter-bounded four-letter tokens of the URL are
  collected). The first half holds, see \<open>labelled_token_wins\<close>. The second fails
  for the URL: a match of \<open>RE_SLUG_ICAO\<close> spans the delimiter after the token, and
  \<open>findall\<close> goes on after the match, so a token that follows at once has no
  delimiter left before it and is not found. In \<open>/msfs/egll-heathrow\<close> the token
  \<open>egll\<close> stands between two delimiters and is lost; with two delimiters between
  the tokens both are found.
\<close>

theorem slug_token_after_shared_delimiter_missed:
  "find_icaos_in_entry ''London Heathrow v1.2'' [] ''https://example.com/msfs/egll-heathrow''
     = [''MSFS'']
   \<and> re_search RE_SLUG_ICAO None ''/egll-heathrow'' = Some ''egll''
   \<and> find_icaos_in_entry [] [] ''vtbu-klax'' = [''VTBU'']
   \<and> find_icaos_in_entry [] [] ''vtbu--klax'' = [''KLAX'', ''VTBU'']"
  by code_simp


lemma labelled_token_wins:
  "re_search RE_ICAO_IN_DESC None desc = Some g \<Longrightarrow>
   find_icaos_in_entry t desc u = [py_upper g]"
  by (simp add: find_icaos_in_entry_def)

subsection \<open>The order of the reconciliation checks\<close>

lemma upper_char_idem: "upper_char (upper_char c) = upper_char c"
proof (cases "CHR ''a'' \<le> c \<and> c \<le> CHR ''z''")
  case True
  then have r: "97 \<le> (of_char c :: nat)" "(of_char c :: nat) \<le> 122"
    by (simp_all add: less_eq_char_def)
  then have "(of_char (char_of (of_char c - (32::nat)) :: char) :: nat) = of_char c - 32"
    by simp
  then have "\<not> (CHR ''a'' \<le> (char_of (of_char c - (32::nat)) :: char))"
    using r by (simp add: less_eq_char_def)
  then show ?thesis using True by (simp add: upper_char_def)
next
  case False
  then have "upper_char c = c" unfolding upper_char_def by (simp only: if_False)
  then show ?thesis by simp
qed

lemma py_upper_idem: "py_upper (py_upper s) = py_upper s"
  by (simp add: py_upper_def upper_char_idem)

lemma folder_icao_upper: "folder_icao f = Some i \<Longrightarrow> py_upper i = i"
  by (auto simp: folder_icao_def py_upper_idem split: option.splits if_splits)

lemma title_icao_upper: "title_icao t = Some i \<Longrightarrow> py_upper i = i"
  by (auto simp: title_icao_def py_upper_idem)

lemma relocate_one:
  "\<exists>k es. relocate cfg ob = ([k], es) \<and> k \<in> set relocation_counters"
  by (auto simp: relocate_def attempt_move_def relocation_counters_def Let_def split: option.splits)

lemma norm_string_empty: "normalize_version_string [] = None"
  by (simp add: normalize_version_string_def norm_version_def)

lemma resolve_tag_typed:
  assumes "typed_manifest (JObj d)" and "\<forall>k. idx k \<noteq> Some []"
  shows "resolve_tag idx folder_name (JObj d) =
     (case normalize_version_string (py_strip (field_text d ''package_version'')) of
        None \<Rightarrow> Inr (Inl no_version)
      | Some v \<Rightarrow>
          (case spec_identifier folder_name d of
             None \<Rightarrow> Inr (Inl no_match)
           | Some i \<Rightarrow>
               (case idx (i, v) of None \<Rightarrow> Inr (Inl no_match) | Some tg \<Rightarrow> Inr (Inr tg))))"
proof -
  from assms(1) have pv: "str_or_falsy (dict_get d ''package_version'' JNull)"
    and ti: "str_or_falsy (dict_get d ''title'' JNull)"
    by (simp_all add: typed_manifest_def)
  have 1: "str_strip (py_or (dict_get d ''package_version'' JNull) (JStr []))
      = Inr (py_strip (field_text d ''package_version''))"
    using pv by (cases "dict_get d ''package_version'' JNull")
      (auto simp: str_or_falsy_def py_or_def str_strip_def field_text_def py_strip_def)
  have dg: "dict_get d ''title'' (JStr []) = (case map_of d ''title'' of None \<Rightarrow> JStr [] | Some v \<Rightarrow> v)"
    by (simp add: dict_get_def)
  have 2: "manifest_icao_from_title (dict_get d ''title'' (JStr []))
      = Inr (title_icao (field_text d ''title''))"
    using ti by (cases "map_of d ''title''"; cases "dict_get d ''title'' JNull")
      (auto simp: str_or_falsy_def py_or_def manifest_icao_from_title_def field_text_def dict_get_def)
  show ?thesis
    using assms(2)
    by (auto simp: resolve_tag_def py_get_def 1 2 norm_string_empty spec_identifier_def
        folder_icao_upper title_icao_upper split: option.splits)
qed

text \<open>
  For a manifest that cannot be read or parsed, or that is an object with text fields,
  with an index that holds no empty tag (the index of a run holds none, see
  \<open>built_index_no_empty_tag\<close>) and, in apply mode, a write that succeeds, the
  body raises nothing and counts exactly one reconciliation outcome, the one the rules
  of the specification give in their order, followed by relocation outcomes only.
\<close>

lemma reconcile_order:
  assumes "case read_result ob of None \<Rightarrow> True | Some m \<Rightarrow> typed_manifest m"
    and "\<forall>k. idx k \<noteq> Some []"
    and "apply_mode cfg \<longrightarrow> write_res ob = WriteOk"
  shows "raised (process_manifest cfg idx folder_name ob) = None
       \<and> (\<exists>rel. outcomes (process_manifest cfg idx folder_name ob)
                  = spec_reconcile (apply_mode cfg) idx folder_name (read_result ob) # rel
               \<and> set rel \<subseteq> set relocation_counters)"
proof (cases "read_result ob")
  case None
  then show ?thesis by (simp add: process_manifest_def finish_def spec_reconcile_def)
next
  case (Some m)
  with assms(1) obtain d where m: "m = JObj d" and t: "typed_manifest (JObj d)"
    by (cases m) (auto simp: typed_manifest_def)
  obtain k es where rel: "relocate cfg ob = ([k], es)" "k \<in> set relocation_counters"
    using relocate_one by blast
  show ?thesis
    using assms(3) rel
    by (auto simp: process_manifest_def Some m resolve_tag_typed[OF t assms(2)] spec_reconcile_def
        finish_def tag_and_move_def Let_def split: option.splits)
qed

subsection \<open>Relocation and the free-space check\<close>

text \<open>
  Claim C6. The size of the source tree and the free space of the destination are
  queried only when the destination does not exist and the drives differ (the
  copy+delete strategy). Then, with both figures known, a size plus margin strictly
  above the free space gives \<open>no_space\<close> (apply) or \<open>will_no_space\<close> (dry run)
  and no move is attempted; a size plus margin at or below the free space lets the move
  proceed (\<open>moved\<close> or \<open>move_failed\<close> in apply mode, \<open>will_move\<close> in a dry
  run). With equal drives (rename) nothing is queried. The dry run makes the same
  query and the same comparison as apply mode.
\<close>

theorem space_preflight:
  "(SpaceCheck \<in> set (snd (relocate cfg ob))
      \<longleftrightarrow> \<not> dest_exists ob \<and> \<not> same_drive (addons_drive cfg) (dest_drive cfg))
   \<and> (\<not> dest_exists ob \<and> \<not> same_drive (addons_drive cfg) (dest_drive cfg)
        \<and> space ob = Some (size_bytes, free_bytes)
        \<and> int size_bytes + space_margin cfg > int free_bytes
      \<longrightarrow> relocate cfg ob
            = ([if apply_mode cfg then no_space else will_no_space], [SpaceCheck]))
   \<and> (\<not> dest_exists ob \<and> \<not> same_drive (addons_drive cfg) (dest_drive cfg)
        \<and> space ob = Some (size_bytes, free_bytes)
        \<and> int size_bytes + space_margin cfg \<le> int free_bytes
      \<longrightarrow> relocate cfg ob
            = (if apply_mode cfg
               then ([if move_ok ob then moved else move_failed], [SpaceCheck, MoveAttempt])
               else ([will_move], [SpaceCheck])))
   \<and> (\<not> dest_exists ob \<and> same_drive (addons_drive cfg) (dest_drive cfg)
      \<longrightarrow> relocate cfg ob
            = (if apply_mode cfg
               then ([if move_ok ob then moved else move_failed], [MoveAttempt])
               else ([will_move], [])))
   \<and> (fst (relocate (cfg\<lparr> apply_mode := True \<rparr>) ob) = [no_space]
      \<longleftrightarrow> fst (relocate (cfg\<lparr> apply_mode := False \<rparr>) ob) = [will_no_space])"
  by (auto simp: relocate_def attempt_move_def Let_def split: option.splits)

theorem space_preflight_witness:
  "relocate \<lparr> apply_mode = True, accepted_tag = DEFAULT_ACCEPTED_TAG, space_margin = 250,
              addons_drive = ''E:'', dest_drive = ''d:'' \<rparr>
            \<lparr> read_result = None, dest_exists = False, space = Some (1000, 1249),
              write_res = WriteOk, move_ok = True \<rparr>
     = ([no_space], [SpaceCheck])
   \<and> relocate \<lparr> apply_mode = True, accepted_tag = DEFAULT_ACCEPTED_TAG, space_margin = 250,
              addons_drive = ''E:'', dest_drive = ''d:'' \<rparr>
            \<lparr> read_result = None, dest_exists = False, space = Some (1000, 1250),
              write_res = WriteOk, move_ok = True \<rparr>
     = ([moved], [SpaceCheck, MoveAttempt])
   \<and> relocate \<lparr> apply_mode = False, accepted_tag = DEFAULT_ACCEPTED_TAG, space_margin = 250,
              addons_drive = ''E:'', dest_drive = ''e:'' \<rparr>
            \<lparr> read_result = None, dest_exists = False, space = Some (1000, 0),
              write_res = WriteOk, move_ok = True \<rparr>
     = ([will_move], [])"
proof -
  let ?c = "\<lparr> apply_mode = True, accepted_tag = DEFAULT_ACCEPTED_TAG, space_margin = 250,
              addons_drive = ''E:'', dest_drive = ''d:'' \<rparr>"
  let ?d = "\<lparr> apply_mode = False, accepted_tag = DEFAULT_ACCEPTED_TAG, space_margin = 250,
              addons_drive = ''E:'', dest_drive = ''e:'' \<rparr>"
  let ?o1 = "\<lparr> read_result = None, dest_exists = False, space = Some (1000, 1249),
              write_res = WriteOk, move_ok = True \<rparr>"
  let ?o2 = "\<lparr> read_result = None, dest_exists = False, space = Some (1000, 1250),
              write_res = WriteOk, move_ok = True \<rparr>"
  let ?o3 = "\<lparr> read_result = None, dest_exists = False, space = Some (1000, 0),
              write_res = WriteOk, move_ok = True \<rparr>"
  have s1: "\<not> same_drive ''E:'' ''d:''"
    by code_simp
  have s2: "same_drive ''E:'' ''e:''"
    by code_simp
  have a: "relocate ?c ?o1 = ([no_space], [SpaceCheck])"
    using space_preflight[of ?c ?o1 1000 1249] s1 by simp
  have b: "relocate ?c ?o2 = ([moved], [SpaceCheck, MoveAttempt])"
    using space_preflight[of ?c ?o2 1000 1250] s1 by simp
  have c: "relocate ?d ?o3 = ([will_move], [])"
    using space_preflight[of ?d ?o3 1000 0] s2 by simp
  show ?thesis using a b c by simp
qed

subsection \<open>Rewriting the manifest\<close>

lemma relocate_no_write: "FileWrite m \<notin> set (snd (relocate cfg ob))"
  by (auto simp: relocate_def attempt_move_def Let_def split: option.splits)

lemma tag_and_move_write:
  "FileWrite m \<in> set (effects (tag_and_move cfg ob d tg)) \<longleftrightarrow>
     apply_mode cfg \<and> dict_get d ''simType'' JNull \<noteq> JStr tg
     \<and> m = AList.update ''simType'' (JStr tg) d"
  using relocate_no_write[of m cfg ob]
  by (cases "relocate cfg ob")
     (auto simp: tag_and_move_def Let_def finish_def raise_def)

lemma resolve_tag_object:
  "resolve_tag idx folder_name m = Inr (Inr tg) \<Longrightarrow> \<exists>d. m = JObj d"
  by (cases m) (auto simp: resolve_tag_def py_get_def)

text \<open>
  Claim C8. \<open>write_text\<close> is called exactly in apply mode for a manifest whose
  look-up gives a tag that differs from the current \<open>simType\<close>. What is written is
  the manifest with \<open>simType\<close> set to the tag of the feed: every other field reads
  as before, and when the write succeeds the file holds that object.
\<close>

theorem rewrite_iff_change:
  "(FileWrite m \<in> set (effects (process_manifest cfg idx folder_name ob)) \<longleftrightarrow>
      apply_mode cfg
      \<and> (\<exists>d tg. read_result ob = Some (JObj d)
            \<and> resolve_tag idx folder_name (JObj d) = Inr (Inr tg)
            \<and> dict_get d ''simType'' JNull \<noteq> JStr tg
            \<and> m = AList.update ''simType'' (JStr tg) d))
   \<and> (\<forall>k. k \<noteq> ''simType'' \<longrightarrow>
         dict_get (AList.update ''simType'' (JStr tg') d') k dflt = dict_get d' k dflt)
   \<and> dict_get (AList.update ''simType'' (JStr tg') d') ''simType'' dflt = JStr tg'
   \<and> (write_res ob = WriteOk \<longrightarrow>
         map_of (manifests (commit ob p (FileWrite m) s)) p = Some (Some (JObj m)))"
proof -
  have 1: "FileWrite m \<in> set (effects (process_manifest cfg idx folder_name ob)) \<longleftrightarrow>
      apply_mode cfg
      \<and> (\<exists>d tg. read_result ob = Some (JObj d)
            \<and> resolve_tag idx folder_name (JObj d) = Inr (Inr tg)
            \<and> dict_get d ''simType'' JNull \<noteq> JStr tg
            \<and> m = AList.update ''simType'' (JStr tg) d)"
  proof (cases "read_result ob")
    case None
    then show ?thesis by (simp add: process_manifest_def finish_def)
  next
    case (Some man)
    show ?thesis
    proof (cases "resolve_tag idx folder_name man")
      case (Inl e)
      then show ?thesis using Some by (auto simp: process_manifest_def raise_def)
    next
      case (Inr x)
      show ?thesis
      proof (cases x)
        case (Inl stop)
        then show ?thesis using Some Inr by (auto simp: process_manifest_def finish_def)
      next
        case (Inr tg)
        with \<open>resolve_tag idx folder_name man = Inr x\<close>
        have r: "resolve_tag idx folder_name man = Inr (Inr tg)" by simp
        then obtain d where d: "man = JObj d" using resolve_tag_object by blast
        show ?thesis
          using Some r d by (auto simp: process_manifest_def tag_and_move_write)
      qed
    qed
  qed
  have 2: "\<forall>k. k \<noteq> ''simType'' \<longrightarrow>
         dict_get (AList.update ''simType'' (JStr tg') d') k dflt = dict_get d' k dflt"
    by (simp add: dict_get_def update_conv')
  have 3: "dict_get (AList.update ''simType'' (JStr tg') d') ''simType'' dflt = JStr tg'"
    by (simp add: dict_get_def update_conv')
  have 4: "write_res ob = WriteOk \<longrightarrow>
         map_of (manifests (commit ob p (FileWrite m) s)) p = Some (Some (JObj m))"
    by (simp add: commit_def update_conv')
  show ?thesis using 1 2 3 4 by blast
qed

theorem rewrite_iff_change_witness:
  "FileWrite (klax_manifest @ [(''simType'', JStr ''MSFS 2020/2024'')])
     \<in> set (effects (process_manifest (example_config True) example_index ''cityscene-klax-airport''
          \<lparr> read_result = Some (JObj klax_manifest), dest_exists = False, space = None,
            write_res = WriteOk, move_ok = True \<rparr>))"
proof -
  let ?ob = "\<lparr> read_result = Some (JObj klax_manifest), dest_exists = False, space = None,
            write_res = WriteOk, move_ok = True \<rparr>"
  let ?m = "klax_manifest @ [(''simType'', JStr ''MSFS 2020/2024'')]"
  have r: "resolve_tag example_index ''cityscene-klax-airport'' (JObj klax_manifest)
      = Inr (Inr ''MSFS 2020/2024'')"
    by code_simp
  have n: "dict_get klax_manifest ''simType'' JNull \<noteq> JStr ''MSFS 2020/2024''"
    by code_simp
  have u: "?m = AList.update ''simType'' (JStr ''MSFS 2020/2024'') klax_manifest"
    by code_simp
  have a: "apply_mode (example_config True)"
    by (simp add: example_config_def)
  have "FileWrite ?m \<in> set (effects (process_manifest (example_config True) example_index
          ''cityscene-klax-airport'' ?ob)) \<longleftrightarrow>
      apply_mode (example_config True)
      \<and> (\<exists>d tg. read_result ?ob = Some (JObj d)
            \<and> resolve_tag example_index ''cityscene-klax-airport'' (JObj d) = Inr (Inr tg)
            \<and> dict_get d ''simType'' JNull \<noteq> JStr tg
            \<and> ?m = AList.update ''simType'' (JStr tg) d)"
    using rewrite_iff_change[of ?m "example_config True" example_index
        "''cityscene-klax-airport''" ?ob] by blast
  moreover have "\<exists>d tg. read_result ?ob = Some (JObj d)
            \<and> resolve_tag example_index ''cityscene-klax-airport'' (JObj d) = Inr (Inr tg)
            \<and> dict_get d ''simType'' JNull \<noteq> JStr tg
            \<and> ?m = AList.update ''simType'' (JStr tg) d"
    using r n u by (intro exI[of _ klax_manifest] exI[of _ "''MSFS 2020/2024''"]) simp
  ultimately show ?thesis using a by blast
qed

subsection \<open>The feed index\<close>

lemma fold_upd:
  "fold (\<lambda>i m. m(f i \<mapsto> t)) xs idx k = (if k \<in> f ` set xs then Some t else idx k)"
  by (induction xs arbitrary: idx) auto

lemma add_item_lookup:
  "add_item acc idx item k =
     (if is_msfs acc item \<and> k \<in> set (item_keys item) then Some (tag item) else idx k)"
  by (cases "version item") (auto simp: add_item_def item_keys_def fold_upd is_msfs_def)

lemma add_raw_items_lookup:
  "add_raw_items acc idx items = Inr idx' \<Longrightarrow>
   idx' k = (if \<exists>item \<in> set (filter (is_msfs acc) (concat (map entries_of_raw items))).
                  k \<in> set (item_keys item)
             then Some acc else idx k)"
proof (induction items arbitrary: idx)
  case Nil
  then show ?case by simp
next
  case (Cons raw rest)
  show ?case
  proof (cases raw)
    case (JObj kv)
    show ?thesis
    proof (cases "FeedItem kv")
      case (Inl e)
      with Cons.prems JObj show ?thesis by simp
    next
      case (Inr item)
      let ?idx1 = "if is_msfs acc item then add_item acc idx item else idx"
      from Cons.prems JObj Inr have "add_raw_items acc ?idx1 rest = Inr idx'" by simp
      from Cons.IH[OF this] have
        "idx' k = (if \<exists>item \<in> set (filter (is_msfs acc) (concat (map entries_of_raw rest))).
                  k \<in> set (item_keys item)
             then Some acc else ?idx1 k)" .
      moreover have "?idx1 k = (if is_msfs acc item \<and> k \<in> set (item_keys item) then Some acc else idx k)"
        by (auto simp: add_item_lookup is_msfs_def)
      ultimately show ?thesis using JObj Inr by auto
    qed
  qed (use Cons in auto)
qed

lemma load_files_lookup:
  "load_files acc idx files = Inr idx' \<Longrightarrow>
   idx' k = (if \<exists>(n, c) \<in> set files. \<exists>item \<in> set (acceptable_entries acc c).
                  k \<in> set (item_keys item)
             then Some acc else idx k)"
proof (induction files arbitrary: idx)
  case Nil
  then show ?case by simp
next
  case (Cons f rest)
  obtain n c where f: "f = (n, c)" by (cases f)
  show ?case
  proof (cases c)
    case None
    with Cons f show ?thesis by (auto simp: acceptable_entries_def)
  next
    case (Some data)
    show ?thesis
    proof (cases "feed_items_of data")
      case None
      with Cons f Some show ?thesis by (auto simp: acceptable_entries_def)
    next
      case (Some items)
      with Cons.prems f \<open>c = Some data\<close>
      obtain idx1 where 1: "add_raw_items acc idx items = Inr idx1"
        and 2: "load_files acc idx1 rest = Inr idx'"
        by (auto split: sum.splits)
      have e: "acceptable_entries acc c = filter (is_msfs acc) (concat (map entries_of_raw items))"
        using Some \<open>c = Some data\<close> by (simp add: acceptable_entries_def)
      show ?thesis
        using Cons.IH[OF 2] add_raw_items_lookup[OF 1, of k] f e by auto
    qed
  qed
qed

lemma feed_order_set: "set (feed_order files) = set files"
  by (simp add: feed_order_def)

lemma load_feed_index_lookup:
  assumes "load_feed_index acc files = Inr idx"
  shows "idx k = (if \<exists>(n, c) \<in> set files. \<exists>item \<in> set (acceptable_entries acc c).
                  k \<in> set (item_keys item)
             then Some acc else None)"
  using load_files_lookup[OF assms[unfolded load_feed_index_def], of k]
  by (simp add: feed_order_set)

lemma find_flag_nonempty_or_env:
  "arg_or_env_str flag env_val dflt argv \<noteq> [] \<or> dflt = []"
  by (auto simp: arg_or_env_str_def Let_def split: option.splits)

lemma accepted_tag_nonempty: "ACCEPTED_TAG argv env_val \<noteq> []"
  using find_flag_nonempty_or_env[of "''--accepted-tag''" env_val DEFAULT_ACCEPTED_TAG argv]
  by (simp add: ACCEPTED_TAG_def DEFAULT_ACCEPTED_TAG_def)

lemma built_index_no_empty_tag:
  assumes "load_feed_index (ACCEPTED_TAG argv env_val) files = Inr idx"
  shows "\<forall>k. idx k \<noteq> Some []"
proof
  fix k
  have "idx k = Some (ACCEPTED_TAG argv env_val) \<or> idx k = None"
    unfolding load_feed_index_lookup[OF assms, of k] by simp
  then show "idx k \<noteq> Some []" using accepted_tag_nonempty[of argv env_val] by auto
qed



lemma example_item:
  "FeedItem [(''title'', JStr ''Los Angeles Intl v1.2''),
             (''description'', JStr ''Scenery. ICAO: klax''),
             (''tag'', JStr ''MSFS 2020/2024'')]
   = Inr \<lparr> title = ''Los Angeles Intl v1.2'', description = ''Scenery. ICAO: klax'',
           page_url = [], tag = ''MSFS 2020/2024'', version = Some ''1.2.0'',
           icaos = [''KLAX''] \<rparr>"
  by code_simp

lemma upper_KLAX: "py_upper ''KLAX'' = ''KLAX''"
  by code_simp

lemma example_index_loaded:
  "load_feed_index DEFAULT_ACCEPTED_TAG example_feed = Inr example_index"
  by (simp add: load_feed_index_def feed_order_def example_feed_def feed_items_of_def
      dict_get_def example_item is_msfs_def add_item_def DEFAULT_ACCEPTED_TAG_def
      upper_KLAX example_index_def)





subsection \<open>Matched manifests are relocated\<close>

lemma resolve_tag_in_index:
  "resolve_tag idx folder_name m = Inr (Inr tg) \<Longrightarrow> \<exists>k. idx k = Some tg"
  by (auto simp: resolve_tag_def split: sum.splits option.splits if_splits)

lemma resolve_tag_stop:
  "resolve_tag idx folder_name m = Inr (Inl stop) \<Longrightarrow> stop = no_version \<or> stop = no_match"
  by (auto simp: resolve_tag_def split: sum.splits option.splits if_splits)

lemma tag_and_move_outcomes:
  assumes "tg = accepted_tag cfg"
  shows "outcomes (tag_and_move cfg ob d tg) =
     (if apply_mode cfg \<and> dict_get d ''simType'' JNull \<noteq> JStr tg \<and> write_res ob \<noteq> WriteOk
      then []
      else (if dict_get d ''simType'' JNull \<noteq> JStr tg
            then (if apply_mode cfg then updated else will_update) else noop)
           # fst (relocate cfg ob))"
proof (cases "apply_mode cfg \<and> dict_get d ''simType'' JNull \<noteq> JStr tg \<and> write_res ob \<noteq> WriteOk")
  case True
  then show ?thesis by (simp add: tag_and_move_def raise_def)
next
  case False
  then show ?thesis
    using assms by (cases "relocate cfg ob") (auto simp: tag_and_move_def Let_def finish_def)
qed

lemma tag_and_move_accepted:
  assumes "tg = accepted_tag cfg"
  shows "outcomes (tag_and_move cfg ob d tg) = []
       \<or> (\<exists>first rel. outcomes (tag_and_move cfg ob d tg) = [first, rel]
             \<and> first \<in> {noop, will_update, updated} \<and> rel \<in> set relocation_counters)"
proof -
  obtain k es where r: "relocate cfg ob = ([k], es)" and k: "k \<in> set relocation_counters"
    using relocate_one by blast
  show ?thesis
    unfolding tag_and_move_outcomes[OF assms] using k by (simp add: r)
qed

text \<open>
  Claim C10. Every tag the finished index holds is the accepted tag. Hence the tag a
  look-up resolves is the accepted tag, and a manifest whose outcome is \<open>noop\<close>,
  \<open>will_update\<close> or \<open>updated\<close> always enters the relocation branch: its
  reconciliation outcome is followed by exactly one relocation outcome.
\<close>

theorem matched_manifest_is_relocated:
  assumes "load_feed_index acc files = Inr idx" and "accepted_tag cfg = acc"
  shows "(\<forall>k tg. idx k = Some tg \<longrightarrow> tg = acc)
       \<and> (\<forall>m tg. resolve_tag idx folder_name m = Inr (Inr tg) \<longrightarrow> tg = accepted_tag cfg)
       \<and> (noop \<in> set (outcomes (process_manifest cfg idx folder_name ob))
            \<or> will_update \<in> set (outcomes (process_manifest cfg idx folder_name ob))
            \<or> updated \<in> set (outcomes (process_manifest cfg idx folder_name ob))
          \<longrightarrow> (\<exists>first rel. outcomes (process_manifest cfg idx folder_name ob) = [first, rel]
                  \<and> first \<in> {noop, will_update, updated} \<and> rel \<in> set relocation_counters))"
proof -
  have 1: "\<forall>k tg. idx k = Some tg \<longrightarrow> tg = acc"
  proof (intro allI impI)
    fix k tg
    assume s: "idx k = Some tg"
    have "idx k = Some acc \<or> idx k = None"
      unfolding load_feed_index_lookup[OF assms(1), of k] by simp
    with s show "tg = acc" by auto
  qed
  have 2: "\<forall>m tg. resolve_tag idx folder_name m = Inr (Inr tg) \<longrightarrow> tg = accepted_tag cfg"
    using 1 assms(2) resolve_tag_in_index by blast
  let ?os = "outcomes (process_manifest cfg idx folder_name ob)"
  have 3: "\<exists>first rel. ?os = [first, rel]
                  \<and> first \<in> {noop, will_update, updated} \<and> rel \<in> set relocation_counters"
    if h: "noop \<in> set ?os \<or> will_update \<in> set ?os \<or> updated \<in> set ?os"
  proof (cases "read_result ob")
    case None
    with h show ?thesis by (simp add: process_manifest_def finish_def)
  next
    case (Some m)
    show ?thesis
    proof (cases "resolve_tag idx folder_name m")
      case (Inl e)
      with h Some show ?thesis by (simp add: process_manifest_def raise_def)
    next
      case (Inr x)
      show ?thesis
      proof (cases x)
        case (Inl stop)
        with Inr have "stop = no_version \<or> stop = no_match" using resolve_tag_stop by blast
        with h Some Inr Inl show ?thesis by (auto simp: process_manifest_def finish_def)
      next
        case (Inr tg)
        with \<open>resolve_tag idx folder_name m = Inr x\<close>
        have r: "resolve_tag idx folder_name m = Inr (Inr tg)" by simp
        then have tg: "tg = accepted_tag cfg" using 2 by blast
        from r obtain d where d: "m = JObj d" using resolve_tag_object by blast
        have os: "?os = outcomes (tag_and_move cfg ob d tg)"
          using Some r d by (simp add: process_manifest_def)
        from tag_and_move_accepted[OF tg, of ob d] h show ?thesis
          unfolding os by auto
      qed
    qed
  qed
  show ?thesis using 1 2 3 by blast
qed

theorem matched_manifest_is_relocated_witness:
  "outcomes (process_manifest (example_config False) example_index ''cityscene-klax-airport''
      \<lparr> read_result = Some (JObj klax_manifest), dest_exists = False, space = None,
        write_res = WriteOk, move_ok = True \<rparr>) = [will_update, will_move]
   \<and> example_index (''KLAX'', ''1.2.0'') = Some DEFAULT_ACCEPTED_TAG"
proof -
  let ?ob = "\<lparr> read_result = Some (JObj klax_manifest), dest_exists = False, space = None,
        write_res = WriteOk, move_ok = True \<rparr>"
  let ?os = "outcomes (process_manifest (example_config False) example_index
      ''cityscene-klax-airport'' ?ob)"
  have a: "accepted_tag (example_config False) = DEFAULT_ACCEPTED_TAG"
    by (simp add: example_config_def)
  note t = matched_manifest_is_relocated[OF example_index_loaded a,
      of "''cityscene-klax-airport''" ?ob]
  have m: "will_update \<in> set ?os" by code_simp
  with t obtain first rel where "?os = [first, rel]" by blast
  moreover have "hd ?os = will_update" "last ?os = will_move" by code_simp+
  ultimately have "?os = [will_update, will_move]" by auto
  moreover have "example_index (''KLAX'', ''1.2.0'') = Some DEFAULT_ACCEPTED_TAG"
    using t by (simp add: example_index_def)
  ultimately show ?thesis by simp
qed

subsection \<open>Running twice\<close>





















end
